theory Spec2Isabelle
  imports Main "HOL-Library.AList" "HOL-Library.Word"
begin

section \<open>JavaScript values\<close>

text \<open>
  The backend is JavaScript. A variable that holds \<open>null\<close> or a string is a
  \<open>string option\<close>; in a condition, \<open>null\<close> and the empty string are falsy and
  every other string is truthy. The conditions of the handlers are written out so.
\<close>

text \<open>A number inside a template literal is printed in decimal.\<close>

fun show_nat :: "nat \<Rightarrow> string" where
  "show_nat n =
     (if n < 10 then [''0123456789'' ! n]
      else show_nat (n div 10) @ [''0123456789'' ! (n mod 10)])"

declare show_nat.simps [simp del]

definition show_int :: "int \<Rightarrow> string" where
  "show_int i = (if i < 0 then ''-'' @ show_nat (nat (- i)) else show_nat (nat i))"

text \<open>
  What a call evaluates to: a function body that ends without a \<open>return\<close>
  statement yields \<open>undefined\<close>.
\<close>

datatype js_value = Undefined | Number nat

section \<open>Data of the chat server\<close>

text \<open>
  \<open>rooms\<close> is a \<open>Map\<close> from room id to a \<open>Set\<close> of
  \<open>{ socketId, nickname }\<close> objects. A \<open>Set\<close> keeps insertion order and
  compares objects by identity, so every \<open>add\<close> of a fresh object literal appends
  an element: a room is a list of users, the registry an association list.
\<close>

record user =
  socketId :: string
  nickname :: string

type_synonym registry = "(string \<times> user list) list"

text \<open>
  The message objects built by the handlers:
  \<open>TextMessage id content nickname timestamp\<close> is
  \<open>{ id, type: 'text', content, nickname, timestamp }\<close> and
  \<open>VoiceMessage id url duration nickname timestamp\<close> is
  \<open>{ id, type: 'voice', url, duration, nickname, timestamp }\<close>.
\<close>

datatype message =
    TextMessage string string string int
  | VoiceMessage string string int string int

text \<open>
  The events sent to clients, by name: \<open>nickname-assigned\<close>,
  \<open>user-joined\<close> (nickname, timestamp), \<open>participants-list\<close>,
  \<open>new-message\<close>, \<open>user-left\<close> (nickname, timestamp).
\<close>

datatype event =
    NicknameAssigned string
  | UserJoined string int
  | ParticipantsList "string list"
  | NewMessage message
  | UserLeft string int

text \<open>
  Where an event is sent: \<open>socket.emit\<close> (to the socket itself),
  \<open>socket.to(room).emit\<close> (to the room, except the socket's own room) and
  \<open>io.to(room).emit\<close> (to the whole room).
\<close>

datatype target =
    ToSocket string
  | ToRoomExcept string string
  | ToRoom string

text \<open>
  What a handler does besides changing the state, in the order it does it: lines
  written with \<open>console.log\<close> and \<open>console.warn\<close>, and events handed to
  Socket.IO. \<open>Emit target event recipients registry\<close> records, beside the target
  and the event, the sockets the event is delivered to and the room registry as it
  stands at the moment of the call.
\<close>

datatype effect =
    ConsoleLog string
  | ConsoleWarn string
  | Emit target event "string set" registry

section \<open>Voice message storage (storage.js)\<close>

text \<open>
  \<open>voiceMessages\<close> is a \<open>Map\<close> from message id to
  \<open>{ buffer, mimeType, timestamp }\<close>. A \<open>Map\<close> keeps its entries in insertion
  order with one entry per key: an association list whose keys are distinct.
  \<open>Map.set\<close> replaces the value of a present key in place and appends an absent one
  (\<open>AList.update\<close>), \<open>Map.get\<close> is \<open>map_of\<close>, \<open>Map.delete\<close> is
  \<open>AList.delete\<close>. \<open>Date.now()\<close> is an argument of the functions that read it.
\<close>

record voice_record =
  buffer :: "8 word list"
  mimeType :: string
  timestamp :: int

type_synonym store = "(string \<times> voice_record) list"

definition storeVoiceMessage ::
  "string \<Rightarrow> 8 word list \<Rightarrow> string \<Rightarrow> int \<Rightarrow> store \<Rightarrow> store \<times> effect list" where
  "storeVoiceMessage messageId buf mime now voiceMessages =
     (AList.update messageId \<lparr>buffer = buf, mimeType = mime, timestamp = now\<rparr> voiceMessages,
      [ConsoleLog (''[Storage] Stored voice message: '' @ messageId @ '' ('' @
                   show_nat (length buf) @ '' bytes)'')])"

text \<open>
  \<open>voiceMessages.get(messageId) || null\<close>: a stored record is an object, hence
  truthy, so the result is the record, or \<open>null\<close> (\<open>None\<close>) for an absent id.
  The store is returned beside the result, as the call leaves it.
\<close>

definition getVoiceMessage :: "string \<Rightarrow> store \<Rightarrow> store \<times> voice_record option" where
  "getVoiceMessage messageId voiceMessages = (voiceMessages, map_of voiceMessages messageId)"

definition maxAge :: int where
  "maxAge = 24 * 60 * 60 * 1000"

text \<open>
  The loop of \<open>cleanupOldMessages\<close> walks the entries of the map and deletes the
  key of the entry it is visiting when that entry is too old. The keys of a \<open>Map\<close>
  are distinct, so a deletion never touches an entry still to be visited and the walk
  sees every entry the map had when the loop began: the first argument is that list of
  entries, the second the map being updated.
\<close>

fun sweep :: "int \<Rightarrow> store \<Rightarrow> store \<Rightarrow> nat \<Rightarrow> store \<times> nat" where
  "sweep now [] voiceMessages deletedCount = (voiceMessages, deletedCount)"
| "sweep now ((messageId, data) # entries) voiceMessages deletedCount =
     (if now - timestamp data > maxAge
      then sweep now entries (AList.delete messageId voiceMessages) (deletedCount + 1)
      else sweep now entries voiceMessages deletedCount)"

text \<open>
  The function has no \<open>return\<close> statement: the count goes to the console when it is
  positive, and the call evaluates to \<open>undefined\<close>.
\<close>

definition cleanupOldMessages :: "int \<Rightarrow> store \<Rightarrow> store \<times> effect list \<times> js_value" where
  "cleanupOldMessages now voiceMessages =
     (let (voiceMessages', deletedCount) = sweep now voiceMessages voiceMessages 0
      in (voiceMessages',
          (if deletedCount > 0
           then [ConsoleLog (''[Storage] Cleaned up '' @ show_nat deletedCount @
                             '' old voice messages'')]
           else []),
          Undefined))"

section \<open>Room tracking and event handlers (socket.js)\<close>

text \<open>
  \<open>generateNickname\<close> draws twice from \<open>Math.random()\<close>. Its arguments are the
  two integers the draws are floored to: \<open>i = Math.floor(Math.random() * prefixes.length)\<close>
  and \<open>n = Math.floor(Math.random() * 9000)\<close>. An index past the end of an array reads
  \<open>undefined\<close>, which a template literal prints as such.
\<close>

definition prefixes :: "string list" where
  "prefixes = [''User'', ''Guest'', ''Visitor'', ''Friend'', ''Member'']"

definition generateNickname :: "nat \<Rightarrow> nat \<Rightarrow> string" where
  "generateNickname i n =
     (if i < length prefixes then prefixes ! i else ''undefined'') @ show_nat (n + 1000)"

text \<open>\<open>rooms.get(roomId) || []\<close>: the members of a room, none for an absent room.\<close>

definition room_members :: "string \<Rightarrow> registry \<Rightarrow> user list" where
  "room_members roomId rs = (case map_of rs roomId of None \<Rightarrow> [] | Some room \<Rightarrow> room)"

text \<open>
  The loop of \<open>removeUserFromRoom\<close>: delete the first user of the room whose
  \<open>socketId\<close> is the given one, and stop.
\<close>

fun delete_user :: "string \<Rightarrow> user list \<Rightarrow> user list" where
  "delete_user sid [] = []"
| "delete_user sid (u # room) =
     (if socketId u = sid then room else u # delete_user sid room)"

definition removeUserFromRoom :: "string \<Rightarrow> string \<Rightarrow> registry \<Rightarrow> registry \<times> effect list" where
  "removeUserFromRoom roomId sid rs =
     (case map_of rs roomId of
        None \<Rightarrow> (rs, [])
      | Some room \<Rightarrow>
          (let room' = delete_user sid room
           in if length room' = 0
              then (AList.delete roomId rs,
                    [ConsoleLog (''[Socket] Room '' @ roomId @ '' is now empty and removed'')])
              else (AList.update roomId room' rs, [])))"

text \<open>
  The server state the handlers share: the \<open>rooms\<close> registry, and the rooms of
  Socket.IO itself (which sockets \<open>socket.join\<close> has put in which room), from which
  the library works out who receives a broadcast. Socket.IO is a dependency, not part of
  this repository; its rooms are modelled after its documentation: \<open>socket.join\<close> adds
  the socket to a room, \<open>socket.leave\<close> takes it out, a socket is in the room named by
  its own id from the moment it connects, and a socket that disconnects has left every
  room by the time its \<open>disconnect\<close> listeners run. \<open>io.to(room)\<close> reaches the
  sockets of the room. \<open>socket.to(room)\<close> reaches the sockets of the room except
  those of the room named by the sending socket's id: that room holds the sender alone,
  unless a \<open>join-room\<close> has named a socket id as its room id.
\<close>

record server =
  rooms :: registry
  sio :: "string \<Rightarrow> string set"

definition socket_join :: "string \<Rightarrow> string \<Rightarrow> (string \<Rightarrow> string set) \<Rightarrow> (string \<Rightarrow> string set)" where
  "socket_join sid roomId ad = ad(roomId := insert sid (ad roomId))"

definition socket_leave :: "string \<Rightarrow> string \<Rightarrow> (string \<Rightarrow> string set) \<Rightarrow> (string \<Rightarrow> string set)" where
  "socket_leave sid roomId ad = ad(roomId := ad roomId - {sid})"

definition leave_all :: "string \<Rightarrow> (string \<Rightarrow> string set) \<Rightarrow> (string \<Rightarrow> string set)" where
  "leave_all sid ad = (\<lambda>roomId. ad roomId - {sid})"

fun recipients :: "(string \<Rightarrow> string set) \<Rightarrow> target \<Rightarrow> string set" where
  "recipients ad (ToSocket sid) = {sid}"
| "recipients ad (ToRoomExcept roomId sid) = ad roomId - ad sid"
| "recipients ad (ToRoom roomId) = ad roomId"

definition emit :: "target \<Rightarrow> event \<Rightarrow> server \<Rightarrow> effect" where
  "emit tgt ev srv = Emit tgt ev (recipients (sio srv) tgt) (rooms srv)"

text \<open>
  The variables each connection's handlers close over, both \<open>null\<close> at first.
\<close>

record conn =
  currentRoom :: "string option"
  currentNickname :: "string option"

text \<open>
  The test \<open>currentRoom && currentNickname\<close> of the send and disconnect handlers
  (they return early on its negation): it succeeds when both variables hold a non-empty
  string, and then the handler goes on with these two values.
\<close>

definition joined :: "conn \<Rightarrow> (string \<times> string) option" where
  "joined c =
     (case currentRoom c of
        None \<Rightarrow> None
      | Some r \<Rightarrow>
          (case currentNickname c of
             None \<Rightarrow> None
           | Some nick \<Rightarrow> if r \<noteq> [] \<and> nick \<noteq> [] then Some (r, nick) else None))"

text \<open>
  The head of the \<open>join-room\<close> handler, \<open>if (currentRoom) { ... }\<close>: leave the
  previous room, in Socket.IO and in the registry.
\<close>

definition leave_previous :: "string \<Rightarrow> conn \<Rightarrow> server \<Rightarrow> server \<times> effect list" where
  "leave_previous sid c srv =
     (case currentRoom c of
        None \<Rightarrow> (srv, [])
      | Some r \<Rightarrow>
          if r = [] then (srv, [])
          else (let srv1 = srv\<lparr>sio := socket_leave sid r (sio srv)\<rparr>;
                    (rs, out) = removeUserFromRoom r sid (rooms srv1)
                in (srv1\<lparr>rooms := rs\<rparr>, out)))"

text \<open>
  \<open>if (!rooms.has(roomId)) rooms.set(roomId, new Set()); rooms.get(roomId).add(u)\<close>
\<close>

definition add_member :: "string \<Rightarrow> user \<Rightarrow> registry \<Rightarrow> registry" where
  "add_member roomId u rs =
     (let rs1 = (if map_of rs roomId = None then AList.update roomId [] rs else rs)
      in AList.update roomId (room_members roomId rs1 @ [u]) rs1)"

text \<open>
  The \<open>join-room\<close> handler of the socket \<open>sid\<close>. \<open>i\<close> and \<open>n\<close> are the
  random draws of \<open>generateNickname\<close>, \<open>now\<close> is \<open>Date.now()\<close>.
\<close>

definition join_room ::
  "string \<Rightarrow> string \<Rightarrow> nat \<Rightarrow> nat \<Rightarrow> int \<Rightarrow> conn \<Rightarrow> server \<Rightarrow> conn \<times> server \<times> effect list" where
  "join_room sid roomId i n now c srv =
     (let (srv1, out1) = leave_previous sid c srv;
          nick = generateNickname i n;
          c' = c\<lparr>currentRoom := Some roomId, currentNickname := Some nick\<rparr>;
          srv2 = srv1\<lparr>sio := socket_join sid roomId (sio srv1)\<rparr>;
          srv3 = srv2\<lparr>rooms := add_member roomId \<lparr>socketId = sid, nickname = nick\<rparr> (rooms srv2)\<rparr>
      in (c', srv3,
          out1 @
          [ConsoleLog (''[Socket] '' @ nick @ '' ('' @ sid @ '') joined room: '' @ roomId),
           emit (ToSocket sid) (NicknameAssigned nick) srv3,
           emit (ToRoomExcept roomId sid) (UserJoined nick now) srv3,
           emit (ToSocket sid)
             (ParticipantsList (map nickname (room_members roomId (rooms srv3)))) srv3]))"

text \<open>
  The \<open>send-message\<close> handler. \<open>content\<close> is \<open>data.content\<close>, \<open>now_id\<close> and
  \<open>now_ts\<close> are the two readings of \<open>Date.now()\<close> (for the id and for the
  timestamp), \<open>rnd\<close> is \<open>Math.random().toString(36).substr(2, 9)\<close>. The handler
  changes neither the connection's variables nor the server state.
\<close>

definition send_message ::
  "string \<Rightarrow> string \<Rightarrow> int \<Rightarrow> string \<Rightarrow> int \<Rightarrow> conn \<Rightarrow> server \<Rightarrow> effect list" where
  "send_message sid content now_id rnd now_ts c srv =
     (case joined c of
        None \<Rightarrow> [ConsoleWarn (''[Socket] Message from unjoined user: '' @ sid)]
      | Some (r, nick) \<Rightarrow>
          [ConsoleLog (''[Socket] Message in '' @ r @ '' from '' @ nick @ '': '' @
                       take 50 content),
           emit (ToRoom r)
             (NewMessage (TextMessage (''msg-'' @ show_int now_id @ ''-'' @ rnd)
                            content nick now_ts)) srv])"

text \<open>
  The \<open>send-voice\<close> handler. \<open>duration\<close> is \<open>data.duration\<close>, \<open>None\<close> when the
  client sent none (the client measures whole seconds); \<open>data.duration || 0\<close>.
\<close>

definition send_voice ::
  "string \<Rightarrow> string \<Rightarrow> string \<Rightarrow> int option \<Rightarrow> int \<Rightarrow> conn \<Rightarrow> server \<Rightarrow> effect list" where
  "send_voice sid messageId url duration now c srv =
     (case joined c of
        None \<Rightarrow> [ConsoleWarn (''[Socket] Voice message from unjoined user: '' @ sid)]
      | Some (r, nick) \<Rightarrow>
          [ConsoleLog (''[Socket] Voice message in '' @ r @ '' from '' @ nick @ '': '' @
                       messageId),
           emit (ToRoom r)
             (NewMessage (VoiceMessage messageId url
                            (case duration of None \<Rightarrow> 0 | Some d \<Rightarrow> if d = 0 then 0 else d)
                            nick now)) srv])"

text \<open>The \<open>disconnect\<close> handler.\<close>

definition disconnect :: "string \<Rightarrow> int \<Rightarrow> conn \<Rightarrow> server \<Rightarrow> server \<times> effect list" where
  "disconnect sid now c srv =
     (case joined c of
        None \<Rightarrow> (srv, [ConsoleLog (''[Socket] Client disconnected: '' @ sid)])
      | Some (r, nick) \<Rightarrow>
          (let (rs, out) = removeUserFromRoom r sid (rooms srv);
               srv' = srv\<lparr>rooms := rs\<rparr>
           in (srv',
               [ConsoleLog (''[Socket] Client disconnected: '' @ sid)] @ out @
               [emit (ToRoomExcept r sid) (UserLeft nick now) srv'])))"

section \<open>The server as a state machine\<close>

text \<open>
  The whole server: the shared state, the variables of every connection made so far,
  and the sockets that are connected now. Socket ids are never used twice. An action is
  what a client does; one for a socket that is not connected changes nothing.
\<close>

record system =
  shared :: server
  conns :: "string \<Rightarrow> conn option"
  live :: "string set"

datatype action =
    Connect string
  | JoinRoom string string nat nat int
  | SendMessage string string int string int
  | SendVoice string string string "int option" int
  | Disconnect string int

definition init :: system where
  "init = \<lparr>shared = \<lparr>rooms = [], sio = (\<lambda>roomId. {})\<rparr>, conns = (\<lambda>sid. None), live = {}\<rparr>"

text \<open>The variables of a connected socket.\<close>

definition conn_of :: "system \<Rightarrow> string \<Rightarrow> conn option" where
  "conn_of s sid = (if sid \<in> live s then conns s sid else None)"

fun step :: "action \<Rightarrow> system \<Rightarrow> system \<times> effect list" where
  "step (Connect sid) s =
     (case conns s sid of
        Some c \<Rightarrow> (s, [])
      | None \<Rightarrow>
          (s\<lparr>shared := (shared s)\<lparr>sio := socket_join sid sid (sio (shared s))\<rparr>,
             conns := (conns s)(sid \<mapsto> \<lparr>currentRoom = None, currentNickname = None\<rparr>),
             live := insert sid (live s)\<rparr>,
           [ConsoleLog (''[Socket] Client connected: '' @ sid)]))"
| "step (JoinRoom sid roomId i n now) s =
     (case conn_of s sid of
        None \<Rightarrow> (s, [])
      | Some c \<Rightarrow>
          (let (c', srv', out) = join_room sid roomId i n now c (shared s)
           in (s\<lparr>shared := srv', conns := (conns s)(sid \<mapsto> c')\<rparr>, out)))"
| "step (SendMessage sid content now_id rnd now_ts) s =
     (case conn_of s sid of
        None \<Rightarrow> (s, [])
      | Some c \<Rightarrow> (s, send_message sid content now_id rnd now_ts c (shared s)))"
| "step (SendVoice sid messageId url duration now) s =
     (case conn_of s sid of
        None \<Rightarrow> (s, [])
      | Some c \<Rightarrow> (s, send_voice sid messageId url duration now c (shared s)))"
| "step (Disconnect sid now) s =
     (case conn_of s sid of
        None \<Rightarrow> (s, [])
      | Some c \<Rightarrow>
          (let srv0 = (shared s)\<lparr>sio := leave_all sid (sio (shared s))\<rparr>;
               (srv', out) = disconnect sid now c srv0
           in (s\<lparr>shared := srv', live := live s - {sid}\<rparr>, out)))"

fun exec :: "action list \<Rightarrow> system \<Rightarrow> system" where
  "exec [] s = s"
| "exec (a # as) s = exec as (fst (step a s))"

text \<open>The events among the effects of a call, and the events one socket receives.\<close>

fun emissions :: "effect list \<Rightarrow> effect list" where
  "emissions [] = []"
| "emissions (Emit tgt ev rcp rs # out) = Emit tgt ev rcp rs # emissions out"
| "emissions (e # out) = emissions out"

fun received_by :: "string \<Rightarrow> effect list \<Rightarrow> event list" where
  "received_by sid [] = []"
| "received_by sid (Emit tgt ev rcp rs # out) =
     (if sid \<in> rcp then ev # received_by sid out else received_by sid out)"
| "received_by sid (e # out) = received_by sid out"

section \<open>Notions used in the proofs\<close>

text \<open>
  The number of entries a socket has in a room, the keys a sweep deletes, and the
  invariants of the server: every room of the registry has a member and the keys of
  the registry are distinct; a connection with a current room has a non-empty
  nickname; a connected socket is in the Socket.IO room it names as its current room;
  and in every room with a non-empty name, a socket has one entry when it is connected
  and the room is its current one, and none otherwise.
\<close>

definition old_keys :: "int \<Rightarrow> store \<Rightarrow> string set" where
  "old_keys now entries = fst ` set (filter (\<lambda>q. now - timestamp (snd q) > maxAge) entries)"

definition count_sid :: "string \<Rightarrow> user list \<Rightarrow> nat" where
  "count_sid sid room = length (filter (\<lambda>u. socketId u = sid) room)"

definition inv_rooms :: "registry \<Rightarrow> bool" where
  "inv_rooms rs = (distinct (map fst rs) \<and> (\<forall>r ms. map_of rs r = Some ms \<longrightarrow> ms \<noteq> []))"

definition inv_nick :: "system \<Rightarrow> bool" where
  "inv_nick s =
     (\<forall>sid c. conns s sid = Some c \<longrightarrow>
        (case currentRoom c of
           None \<Rightarrow> currentNickname c = None
         | Some r \<Rightarrow> (\<exists>nick. currentNickname c = Some nick \<and> nick \<noteq> [])))"

definition inv_sio :: "system \<Rightarrow> bool" where
  "inv_sio s =
     (\<forall>sid c r. conn_of s sid = Some c \<and> currentRoom c = Some r \<longrightarrow> sid \<in> sio (shared s) r)"

definition inv_count :: "system \<Rightarrow> bool" where
  "inv_count s =
     (\<forall>sid r. r \<noteq> [] \<longrightarrow>
        count_sid sid (room_members r (rooms (shared s))) =
          (if \<exists>c. conn_of s sid = Some c \<and> currentRoom c = Some r then 1 else 0))"

definition consistent :: "system \<Rightarrow> bool" where
  "consistent s = (inv_rooms (rooms (shared s)) \<and> inv_nick s \<and> inv_sio s \<and> inv_count s)"

text \<open>
  Reachable states used as examples: one socket connected; one socket in room \<open>A\<close>;
  one socket in room \<open>A\<close> and a second one connected; two sockets in room \<open>A\<close>.
\<close>

definition just_connected :: system where
  "just_connected = exec [Connect ''s1''] init"

definition alone_in_room :: system where
  "alone_in_room = exec [Connect ''s1'', JoinRoom ''s1'' ''A'' 0 0 1] init"


definition two_in_room :: system where
  "two_in_room =
     exec [Connect ''s1'', Connect ''s2'', JoinRoom ''s1'' ''A'' 0 0 1, JoinRoom ''s2'' ''A'' 1 1 2]
       init"




definition in_unnamed_room :: system where
  "in_unnamed_room = exec [Connect ''s1'', JoinRoom ''s1'' [] 0 0 1] init"

section \<open>Properties of the voice message storage\<close>

lemma sweep_filter:
  "sweep now entries vm c =
     (filter (\<lambda>p. fst p \<notin> old_keys now entries) vm,
      c + length (filter (\<lambda>q. now - timestamp (snd q) > maxAge) entries))"
proof (induction entries arbitrary: vm c)
  case Nil
  show ?case by (simp add: old_keys_def)
next
  case (Cons e entries)
  obtain k d where e: "e = (k, d)" by (cases e)
  show ?case
  proof (cases "now - timestamp d > maxAge")
    case True
    then have keys: "old_keys now (e # entries) = insert k (old_keys now entries)"
      using e by (simp add: old_keys_def)
    have "filter (\<lambda>p. fst p \<notin> old_keys now entries) (AList.delete k vm) =
          filter (\<lambda>p. fst p \<notin> old_keys now (e # entries)) vm"
      unfolding AList.delete_eq filter_filter keys
      by (intro filter_cong refl) (auto simp: case_prod_beta)
    with True e Cons.IH show ?thesis by simp
  next
    case False
    then have "old_keys now (e # entries) = old_keys now entries"
      using e by (simp add: old_keys_def)
    with False e Cons.IH show ?thesis by simp
  qed
qed

lemma old_keys_distinct:
  assumes "distinct (map fst vm)" and "p \<in> set vm"
  shows "fst p \<in> old_keys now vm \<longleftrightarrow> now - timestamp (snd p) > maxAge"
proof
  assume "fst p \<in> old_keys now vm"
  then obtain q where q: "q \<in> set vm" "now - timestamp (snd q) > maxAge" "fst q = fst p"
    by (auto simp: old_keys_def)
  from assms q(1) q(3) have "snd q = snd p"
    by (metis eq_key_imp_eq_value prod.collapse)
  with q(2) show "now - timestamp (snd p) > maxAge" by simp
next
  assume "now - timestamp (snd p) > maxAge"
  with assms(2) show "fst p \<in> old_keys now vm"
    by (auto simp: old_keys_def)
qed

lemma sweep_distinct:
  assumes "distinct (map fst vm)"
  shows "sweep now vm vm 0 =
           (filter (\<lambda>p. \<not> now - timestamp (snd p) > maxAge) vm,
            length (filter (\<lambda>p. now - timestamp (snd p) > maxAge) vm))"
proof -
  have "filter (\<lambda>p. fst p \<notin> old_keys now vm) vm =
        filter (\<lambda>p. \<not> now - timestamp (snd p) > maxAge) vm"
    by (intro filter_cong refl) (simp add: old_keys_distinct [OF assms])
  then show ?thesis by (simp add: sweep_filter)
qed

lemma sweep_nothing_old:
  assumes "filter (\<lambda>p. now - timestamp (snd p) > maxAge) vm = []"
  shows "sweep now vm vm 0 = (vm, 0)"
  using assms by (simp add: sweep_filter old_keys_def)

text \<open>
  Claim C8. Storing a voice message under an id and reading that id straight away
  gives back the stored bytes and content type, unchanged (with the time of the store as
  timestamp); and reading any id leaves the store as it was, timestamps included.
\<close>

theorem C8_store_then_get:
  "snd (getVoiceMessage messageId (fst (storeVoiceMessage messageId buf mime now vm))) =
     Some \<lparr>buffer = buf, mimeType = mime, timestamp = now\<rparr> \<and>
   fst (getVoiceMessage anyId vm) = vm"
  by (simp add: getVoiceMessage_def storeVoiceMessage_def update_conv')

text \<open>An instance of C8: a store of five bytes into a store that holds another record.\<close>

theorem C8_store_then_get_witness:
  "snd (getVoiceMessage ''voice-1''
     (fst (storeVoiceMessage ''voice-1'' [1, 2, 3, 4, 5] ''audio/webm'' 1000
        [(''voice-0'', \<lparr>buffer = [7], mimeType = ''audio/ogg'', timestamp = 10\<rparr>)]))) =
     Some \<lparr>buffer = [1, 2, 3, 4, 5], mimeType = ''audio/webm'', timestamp = 1000\<rparr> \<and>
   fst (getVoiceMessage ''voice-0''
     [(''voice-0'', \<lparr>buffer = [7], mimeType = ''audio/ogg'', timestamp = 10\<rparr>)]) =
     [(''voice-0'', \<lparr>buffer = [7], mimeType = ''audio/ogg'', timestamp = 10\<rparr>)]"
  using C8_store_then_get [of "''voice-1''" "[1, 2, 3, 4, 5]" "''audio/webm''" 1000
      "[(''voice-0'', \<lparr>buffer = [7], mimeType = ''audio/ogg'', timestamp = 10\<rparr>)]" "''voice-0''"]
  by simp

text \<open>
  Claim C2, as stated, fails in its last part: the sweep returns no count. With one
  record, 25 hours old, the sweep removes that record and the call evaluates to
  \<open>undefined\<close>, not to the number 1.
\<close>

theorem C2_sweep_returns_no_count:
  "length [(''voice-1'', \<lparr>buffer = [1, 2, 3, 4, 5], mimeType = ''audio/webm'', timestamp = 0\<rparr>)] -
   length (fst (cleanupOldMessages 90000000
     [(''voice-1'', \<lparr>buffer = [1, 2, 3, 4, 5], mimeType = ''audio/webm'', timestamp = 0\<rparr>)])) = 1 \<and>
   snd (snd (cleanupOldMessages 90000000
     [(''voice-1'', \<lparr>buffer = [1, 2, 3, 4, 5], mimeType = ''audio/webm'', timestamp = 0\<rparr>)])) \<noteq>
   Number 1"
  by (simp add: cleanupOldMessages_def maxAge_def)

text \<open>
  Claim C2, amended. For every store (a map, so its keys are distinct) and every current
  time, the sweep removes exactly the records whose age, \<open>now - timestamp\<close>,
  exceeds the 24 hours of \<open>maxAge\<close>, leaves every other record as it was and in
  its place, and counts the records removed; the count is written to the console when
  it is positive, and the call returns no value.
\<close>

theorem C2_sweep_removes_old_records:
  assumes "distinct (map fst vm)"
  shows "cleanupOldMessages now vm =
           (filter (\<lambda>p. \<not> now - timestamp (snd p) > maxAge) vm,
            (if 0 < length (filter (\<lambda>p. now - timestamp (snd p) > maxAge) vm)
             then [ConsoleLog (''[Storage] Cleaned up '' @
                     show_nat (length (filter (\<lambda>p. now - timestamp (snd p) > maxAge) vm)) @
                     '' old voice messages'')]
             else []),
            Undefined)"
  by (simp add: cleanupOldMessages_def sweep_distinct [OF assms])

text \<open>
  An instance of C2 amended: of three records aged 25 hours, exactly 24 hours and under
  3 hours, only the first is removed.
\<close>

theorem C2_sweep_removes_old_records_witness:
  "distinct (map fst
     [(''voice-1'', \<lparr>buffer = [1, 2, 3, 4, 5], mimeType = ''audio/webm'', timestamp = 0\<rparr>),
      (''voice-2'', \<lparr>buffer = [9], mimeType = ''audio/webm'', timestamp = 3600000\<rparr>),
      (''voice-3'', \<lparr>buffer = [], mimeType = ''audio/ogg'', timestamp = 80000000\<rparr>)]) \<and>
   cleanupOldMessages 90000000
     [(''voice-1'', \<lparr>buffer = [1, 2, 3, 4, 5], mimeType = ''audio/webm'', timestamp = 0\<rparr>),
      (''voice-2'', \<lparr>buffer = [9], mimeType = ''audio/webm'', timestamp = 3600000\<rparr>),
      (''voice-3'', \<lparr>buffer = [], mimeType = ''audio/ogg'', timestamp = 80000000\<rparr>)] =
     ([(''voice-2'', \<lparr>buffer = [9], mimeType = ''audio/webm'', timestamp = 3600000\<rparr>),
       (''voice-3'', \<lparr>buffer = [], mimeType = ''audio/ogg'', timestamp = 80000000\<rparr>)],
      [ConsoleLog ''[Storage] Cleaned up 1 old voice messages''],
      Undefined)"
  using C2_sweep_removes_old_records [of
      "[(''voice-1'', \<lparr>buffer = [1, 2, 3, 4, 5], mimeType = ''audio/webm'', timestamp = 0\<rparr>),
        (''voice-2'', \<lparr>buffer = [9], mimeType = ''audio/webm'', timestamp = 3600000\<rparr>),
        (''voice-3'', \<lparr>buffer = [], mimeType = ''audio/ogg'', timestamp = 80000000\<rparr>)]" 90000000]
  by (simp add: maxAge_def show_nat.simps)

text \<open>
  Claim C9. For every store, of two sweeps at the same clock reading the first removes
  the expired records, and the second deletes nothing (its count stays 0 and it writes
  nothing to the console) and leaves the store as the first one left it.
\<close>

theorem C9_second_sweep_removes_nothing:
  assumes "distinct (map fst vm)"
  shows "fst (cleanupOldMessages now vm) = filter (\<lambda>p. \<not> now - timestamp (snd p) > maxAge) vm \<and>
         sweep now (fst (cleanupOldMessages now vm)) (fst (cleanupOldMessages now vm)) 0 =
           (fst (cleanupOldMessages now vm), 0) \<and>
         cleanupOldMessages now (fst (cleanupOldMessages now vm)) =
           (fst (cleanupOldMessages now vm), [], Undefined)"
proof -
  let ?vm1 = "filter (\<lambda>p. \<not> now - timestamp (snd p) > maxAge) vm"
  have first: "fst (cleanupOldMessages now vm) = ?vm1"
    by (simp add: cleanupOldMessages_def sweep_distinct [OF assms])
  have "filter (\<lambda>p. now - timestamp (snd p) > maxAge) ?vm1 = []"
    by (simp add: filter_empty_conv)
  then have second: "sweep now ?vm1 ?vm1 0 = (?vm1, 0)"
    by (rule sweep_nothing_old)
  then have "cleanupOldMessages now ?vm1 = (?vm1, [], Undefined)"
    by (simp add: cleanupOldMessages_def)
  with first second show ?thesis by simp
qed

text \<open>An instance of C9: the first sweep removes one record of two, the second none.\<close>

theorem C9_second_sweep_removes_nothing_witness:
  "distinct (map fst
     [(''voice-1'', \<lparr>buffer = [1, 2, 3, 4, 5], mimeType = ''audio/webm'', timestamp = 0\<rparr>),
      (''voice-2'', \<lparr>buffer = [9], mimeType = ''audio/webm'', timestamp = 80000000\<rparr>)]) \<and>
   fst (cleanupOldMessages 90000000
     [(''voice-1'', \<lparr>buffer = [1, 2, 3, 4, 5], mimeType = ''audio/webm'', timestamp = 0\<rparr>),
      (''voice-2'', \<lparr>buffer = [9], mimeType = ''audio/webm'', timestamp = 80000000\<rparr>)]) =
     [(''voice-2'', \<lparr>buffer = [9], mimeType = ''audio/webm'', timestamp = 80000000\<rparr>)] \<and>
   cleanupOldMessages 90000000
     [(''voice-2'', \<lparr>buffer = [9], mimeType = ''audio/webm'', timestamp = 80000000\<rparr>)] =
     ([(''voice-2'', \<lparr>buffer = [9], mimeType = ''audio/webm'', timestamp = 80000000\<rparr>)],
      [], Undefined)"
proof -
  let ?vm = "[(''voice-1'', \<lparr>buffer = [1, 2, 3, 4, 5], mimeType = ''audio/webm'', timestamp = 0\<rparr>),
              (''voice-2'', \<lparr>buffer = [9::8 word], mimeType = ''audio/webm'', timestamp = 80000000\<rparr>)]"
  have keys: "distinct (map fst ?vm)" by simp
  note sweeps = C9_second_sweep_removes_nothing [OF keys, of 90000000]
  from sweeps have first: "fst (cleanupOldMessages 90000000 ?vm) =
      [(''voice-2'', \<lparr>buffer = [9], mimeType = ''audio/webm'', timestamp = 80000000\<rparr>)]"
    by (simp add: maxAge_def)
  from sweeps have "cleanupOldMessages 90000000 (fst (cleanupOldMessages 90000000 ?vm)) =
      (fst (cleanupOldMessages 90000000 ?vm), [], Undefined)"
    by (elim conjE)
  with keys first show ?thesis by simp
qed

section \<open>Properties of the chat server\<close>

subsection \<open>The registry\<close>

lemma show_nat_nonempty: "show_nat n \<noteq> []"
  by (subst show_nat.simps) simp

lemma generateNickname_nonempty: "generateNickname i n \<noteq> []"
  by (simp add: generateNickname_def show_nat_nonempty)

lemma room_members_update:
  "room_members r (AList.update r' v rs) = (if r = r' then v else room_members r rs)"
  by (simp add: room_members_def update_conv')

lemma room_members_delete:
  "room_members r (AList.delete r' rs) = (if r = r' then [] else room_members r rs)"
  by (simp add: room_members_def delete_conv')

lemma map_of_remove:
  "map_of (fst (removeUserFromRoom r' sid rs)) r =
     (if r = r'
      then (case map_of rs r of
              None \<Rightarrow> None
            | Some room \<Rightarrow> if delete_user sid room = [] then None else Some (delete_user sid room))
      else map_of rs r)"
  by (simp add: removeUserFromRoom_def Let_def update_conv' delete_conv' split: option.split)

lemma room_members_remove:
  "room_members r (fst (removeUserFromRoom r' sid rs)) =
     (if r = r' then delete_user sid (room_members r rs) else room_members r rs)"
  by (simp add: room_members_def map_of_remove split: option.split)

lemma map_of_add:
  "map_of (add_member r' u rs) r =
     (if r = r' then Some (room_members r rs @ [u]) else map_of rs r)"
  by (simp add: add_member_def Let_def update_conv' room_members_def split: option.split)

lemma room_members_add:
  "room_members r (add_member r' u rs) =
     (if r = r' then room_members r rs @ [u] else room_members r rs)"
  by (simp add: room_members_def map_of_add split: option.split)

lemma distinct_remove:
  "distinct (map fst rs) \<Longrightarrow> distinct (map fst (fst (removeUserFromRoom r sid rs)))"
  by (simp add: removeUserFromRoom_def Let_def distinct_update distinct_delete split: option.split)

lemma distinct_add:
  "distinct (map fst rs) \<Longrightarrow> distinct (map fst (add_member r u rs))"
  by (simp add: add_member_def Let_def distinct_update)

lemma inv_rooms_remove: "inv_rooms rs \<Longrightarrow> inv_rooms (fst (removeUserFromRoom r sid rs))"
  by (auto simp: inv_rooms_def distinct_remove map_of_remove split: if_splits option.splits)

lemma inv_rooms_add: "inv_rooms rs \<Longrightarrow> inv_rooms (add_member r u rs)"
  by (auto simp: inv_rooms_def distinct_add map_of_add split: if_splits)

lemma count_delete_user:
  "count_sid sid' (delete_user sid room) =
     (if sid' = sid then count_sid sid' room - 1 else count_sid sid' room)"
  by (induction room) (auto simp: count_sid_def)

lemma count_append:
  "count_sid sid' (room @ [u]) = count_sid sid' room + (if socketId u = sid' then 1 else 0)"
  by (simp add: count_sid_def)

subsection \<open>What each handler leaves behind\<close>

lemma rooms_leave_previous:
  "rooms (fst (leave_previous sid c srv)) =
     (case currentRoom c of
        None \<Rightarrow> rooms srv
      | Some r \<Rightarrow> if r = [] then rooms srv else fst (removeUserFromRoom r sid (rooms srv)))"
  by (simp add: leave_previous_def Let_def split: option.split prod.split)

lemma sio_leave_previous:
  "sio (fst (leave_previous sid c srv)) =
     (case currentRoom c of
        None \<Rightarrow> sio srv
      | Some r \<Rightarrow> if r = [] then sio srv else socket_leave sid r (sio srv))"
  by (simp add: leave_previous_def Let_def split: option.split prod.split)





lemma join_room_conn:
  "fst (join_room sid roomId i n now c srv) =
     c\<lparr>currentRoom := Some roomId, currentNickname := Some (generateNickname i n)\<rparr>"
  by (simp add: join_room_def Let_def split: prod.split)

lemma join_room_rooms:
  "rooms (fst (snd (join_room sid roomId i n now c srv))) =
     add_member roomId \<lparr>socketId = sid, nickname = generateNickname i n\<rparr>
       (rooms (fst (leave_previous sid c srv)))"
  by (simp add: join_room_def Let_def split: prod.split)

lemma join_room_sio:
  "sio (fst (snd (join_room sid roomId i n now c srv))) =
     socket_join sid roomId (sio (fst (leave_previous sid c srv)))"
  by (simp add: join_room_def Let_def split: prod.split)


lemma disconnect_rooms:
  "rooms (fst (disconnect sid now c srv)) =
     (case joined c of
        None \<Rightarrow> rooms srv
      | Some (r, nick) \<Rightarrow> fst (removeUserFromRoom r sid (rooms srv)))"
  by (simp add: disconnect_def Let_def split: option.split prod.split)

lemma disconnect_sio: "sio (fst (disconnect sid now c srv)) = sio srv"
  by (simp add: disconnect_def Let_def split: option.split prod.split)

subsection \<open>Steps of the state machine\<close>

lemma conn_of_live: "conn_of s sid = Some c \<Longrightarrow> sid \<in> live s \<and> conns s sid = Some c"
  by (simp add: conn_of_def split: if_splits)

lemma step_connect_old: "conns s sid = Some c \<Longrightarrow> step (Connect sid) s = (s, [])"
  by simp

lemma step_connect_new:
  "conns s sid = None \<Longrightarrow>
   fst (step (Connect sid) s) =
     s\<lparr>shared := (shared s)\<lparr>sio := socket_join sid sid (sio (shared s))\<rparr>,
       conns := (conns s)(sid \<mapsto> \<lparr>currentRoom = None, currentNickname = None\<rparr>),
       live := insert sid (live s)\<rparr>"
  by simp

lemma step_join:
  "conn_of s sid = Some c \<Longrightarrow>
   step (JoinRoom sid roomId i n now) s =
     (s\<lparr>shared := fst (snd (join_room sid roomId i n now c (shared s))),
        conns := (conns s)(sid \<mapsto> fst (join_room sid roomId i n now c (shared s)))\<rparr>,
      snd (snd (join_room sid roomId i n now c (shared s))))"
  by (simp add: Let_def split: prod.split)

lemma step_disconnect:
  "conn_of s sid = Some c \<Longrightarrow>
   step (Disconnect sid now) s =
     (s\<lparr>shared := fst (disconnect sid now c ((shared s)\<lparr>sio := leave_all sid (sio (shared s))\<rparr>)),
        live := live s - {sid}\<rparr>,
      snd (disconnect sid now c ((shared s)\<lparr>sio := leave_all sid (sio (shared s))\<rparr>)))"
  by (simp add: Let_def split: prod.split)

lemma step_send_state:
  "fst (step (SendMessage sid content now_id rnd now_ts) s) = s"
  "fst (step (SendVoice sid messageId url duration now) s) = s"
  by (simp_all split: option.split)

lemma step_absent:
  assumes "conn_of s sid = None"
  shows "step (JoinRoom sid roomId i n now) s = (s, [])"
    and "step (Disconnect sid now) s = (s, [])"
  using assms by simp_all

lemma step_connect_rooms: "rooms (shared (fst (step (Connect sid) s))) = rooms (shared s)"
  by (simp split: option.split)

declare step.simps [simp del]

subsection \<open>Every step keeps the invariants\<close>

lemma inv_rooms_leave_previous:
  "inv_rooms (rooms srv) \<Longrightarrow> inv_rooms (rooms (fst (leave_previous sid c srv)))"
  by (simp add: rooms_leave_previous inv_rooms_remove split: option.split)

lemma inv_rooms_step:
  assumes "inv_rooms (rooms (shared s))"
  shows "inv_rooms (rooms (shared (fst (step a s))))"
proof (cases a)
  case (Connect sid)
  with assms show ?thesis by (simp add: step_connect_rooms)
next
  case (JoinRoom sid roomId i n now)
  show ?thesis
  proof (cases "conn_of s sid")
    case None
    with JoinRoom assms show ?thesis by (simp add: step_absent)
  next
    case (Some c)
    with JoinRoom assms show ?thesis
      by (simp add: step_join join_room_rooms inv_rooms_add inv_rooms_leave_previous)
  qed
next
  case (SendMessage sid content now_id rnd now_ts)
  with assms show ?thesis by (simp add: step_send_state)
next
  case (SendVoice sid messageId url duration now)
  with assms show ?thesis by (simp add: step_send_state)
next
  case (Disconnect sid now)
  show ?thesis
  proof (cases "conn_of s sid")
    case None
    with Disconnect assms show ?thesis by (simp add: step_absent)
  next
    case (Some c)
    with Disconnect assms show ?thesis
      by (simp add: step_disconnect disconnect_rooms inv_rooms_remove split: option.split)
  qed
qed

lemma inv_nick_step:
  assumes "inv_nick s"
  shows "inv_nick (fst (step a s))"
proof (cases a)
  case (Connect sid)
  with assms show ?thesis
    by (cases "conns s sid") (auto simp: inv_nick_def step_connect_new step_connect_old)
next
  case (JoinRoom sid roomId i n now)
  show ?thesis
  proof (cases "conn_of s sid")
    case None
    with JoinRoom assms show ?thesis by (simp add: step_absent)
  next
    case (Some c)
    with JoinRoom assms show ?thesis
      by (auto simp: inv_nick_def step_join join_room_conn generateNickname_nonempty)
  qed
next
  case (SendMessage sid content now_id rnd now_ts)
  with assms show ?thesis by (simp add: step_send_state)
next
  case (SendVoice sid messageId url duration now)
  with assms show ?thesis by (simp add: step_send_state)
next
  case (Disconnect sid now)
  show ?thesis
  proof (cases "conn_of s sid")
    case None
    with Disconnect assms show ?thesis by (simp add: step_absent)
  next
    case (Some c)
    with Disconnect assms show ?thesis
      by (simp add: step_disconnect inv_nick_def)
  qed
qed

lemma inv_sio_step:
  assumes "inv_sio s"
  shows "inv_sio (fst (step a s))"
proof (cases a)
  case (Connect sid)
  show ?thesis
  proof (cases "conns s sid")
    case (Some c)
    with Connect assms show ?thesis by (simp add: step_connect_old)
  next
    case None
    with Connect assms show ?thesis
      unfolding inv_sio_def
      by (auto simp: step_connect_new conn_of_def socket_join_def split: if_splits)
  qed
next
  case (JoinRoom sid roomId i n now)
  show ?thesis
  proof (cases "conn_of s sid")
    case None
    with JoinRoom assms show ?thesis by (simp add: step_absent)
  next
    case (Some c)
    with JoinRoom assms conn_of_live [OF Some] show ?thesis
      unfolding inv_sio_def
      by (auto simp: step_join join_room_conn join_room_sio sio_leave_previous conn_of_def
            socket_join_def socket_leave_def split: if_splits option.splits)
  qed
next
  case (SendMessage sid content now_id rnd now_ts)
  with assms show ?thesis by (simp add: step_send_state)
next
  case (SendVoice sid messageId url duration now)
  with assms show ?thesis by (simp add: step_send_state)
next
  case (Disconnect sid now)
  show ?thesis
  proof (cases "conn_of s sid")
    case None
    with Disconnect assms show ?thesis by (simp add: step_absent)
  next
    case (Some c)
    with Disconnect assms show ?thesis
      unfolding inv_sio_def
      by (auto simp: step_disconnect disconnect_sio conn_of_def leave_all_def split: if_splits)
  qed
qed

lemma joined_Some:
  "joined c = Some (r, nick) \<longleftrightarrow>
     currentRoom c = Some r \<and> currentNickname c = Some nick \<and> r \<noteq> [] \<and> nick \<noteq> []"
  by (auto simp: joined_def split: option.splits)

lemma joined_None_nick:
  assumes "inv_nick s" and "conns s sid = Some c" and "joined c = None"
  shows "currentRoom c = None \<or> currentRoom c = Some []"
proof (cases "currentRoom c")
  case None
  then show ?thesis by simp
next
  case (Some r)
  with assms(1,2) obtain nick where "currentNickname c = Some nick" "nick \<noteq> []"
    by (fastforce simp: inv_nick_def)
  with Some assms(3) show ?thesis by (auto simp: joined_def split: if_splits)
qed

lemma count_leave_previous:
  assumes "r \<noteq> []"
  shows "count_sid sid' (room_members r (rooms (fst (leave_previous sid c srv)))) =
           (if sid' = sid \<and> currentRoom c = Some r
            then count_sid sid' (room_members r (rooms srv)) - 1
            else count_sid sid' (room_members r (rooms srv)))"
  using assms
  by (auto simp: rooms_leave_previous room_members_remove count_delete_user split: option.split)

lemma inv_count_step:
  assumes "inv_count s" and "inv_nick s"
  shows "inv_count (fst (step a s))"
proof (cases a)
  case (Connect sid)
  show ?thesis
  proof (cases "conns s sid")
    case (Some c)
    with Connect assms show ?thesis by (simp add: step_connect_old)
  next
    case None
    then have absent: "conn_of s sid = None" by (simp add: conn_of_def)
    show ?thesis
      unfolding inv_count_def
    proof (intro allI impI)
      fix sid' r assume r: "r \<noteq> ([]::string)"
      have old: "count_sid sid' (room_members r (rooms (shared s))) =
                   (if \<exists>c. conn_of s sid' = Some c \<and> currentRoom c = Some r then 1 else 0)"
        using assms(1) r by (simp add: inv_count_def)
      show "count_sid sid' (room_members r (rooms (shared (fst (step a s))))) =
              (if \<exists>c. conn_of (fst (step a s)) sid' = Some c \<and> currentRoom c = Some r
               then 1 else 0)"
      proof (cases "sid' = sid")
        case True
        with old absent Connect None show ?thesis
          by (simp add: step_connect_new conn_of_def)
      next
        case False
        with old Connect None show ?thesis
          by (simp add: step_connect_new conn_of_def)
      qed
    qed
  qed
next
  case (JoinRoom sid roomId i n now)
  show ?thesis
  proof (cases "conn_of s sid")
    case None
    with JoinRoom assms show ?thesis by (simp add: step_absent)
  next
    case (Some c)
    note live = conn_of_live [OF Some]
    show ?thesis
      unfolding inv_count_def
    proof (intro allI impI)
      fix sid' r assume r: "r \<noteq> ([]::string)"
      have old: "count_sid sid' (room_members r (rooms (shared s))) =
                   (if \<exists>c. conn_of s sid' = Some c \<and> currentRoom c = Some r then 1 else 0)"
        using assms(1) r by (simp add: inv_count_def)
      show "count_sid sid' (room_members r (rooms (shared (fst (step a s))))) =
              (if \<exists>c. conn_of (fst (step a s)) sid' = Some c \<and> currentRoom c = Some r
               then 1 else 0)"
      proof -
        have new: "count_sid sid' (room_members r (rooms (shared (fst (step a s))))) =
                     count_sid sid' (room_members r (rooms (fst (leave_previous sid c (shared s))))) +
                     (if r = roomId \<and> sid' = sid then 1 else 0)"
          using Some JoinRoom
          by (simp add: step_join join_room_rooms room_members_add count_append)
        have conn': "conn_of (fst (step a s)) sid' =
                       (if sid' = sid
                        then Some (c\<lparr>currentRoom := Some roomId,
                                      currentNickname := Some (generateNickname i n)\<rparr>)
                        else conn_of s sid')"
          using Some live JoinRoom by (simp add: step_join join_room_conn conn_of_def)
        show ?thesis
          unfolding new conn' count_leave_previous [OF r] old
          using Some by auto
      qed
    qed
  qed
next
  case (SendMessage sid content now_id rnd now_ts)
  with assms show ?thesis by (simp add: step_send_state)
next
  case (SendVoice sid messageId url duration now)
  with assms show ?thesis by (simp add: step_send_state)
next
  case (Disconnect sid now)
  show ?thesis
  proof (cases "conn_of s sid")
    case None
    with Disconnect assms show ?thesis by (simp add: step_absent)
  next
    case (Some c)
    note live = conn_of_live [OF Some]
    show ?thesis
      unfolding inv_count_def
    proof (intro allI impI)
      fix sid' r assume r: "r \<noteq> ([]::string)"
      have old: "count_sid sid' (room_members r (rooms (shared s))) =
                   (if \<exists>c. conn_of s sid' = Some c \<and> currentRoom c = Some r then 1 else 0)"
        using assms(1) r by (simp add: inv_count_def)
      show "count_sid sid' (room_members r (rooms (shared (fst (step a s))))) =
              (if \<exists>c. conn_of (fst (step a s)) sid' = Some c \<and> currentRoom c = Some r
               then 1 else 0)"
      proof (cases "joined c")
        case None
        from joined_None_nick [OF assms(2) _ None] live
        have "currentRoom c \<noteq> Some r" using r by auto
        with old Some live Disconnect None show ?thesis
          by (auto simp: step_disconnect disconnect_rooms conn_of_def)
      next
        case (Some p)
        obtain r0 nick where p: "p = (r0, nick)" by (cases p)
        with Some have j: "currentRoom c = Some r0" "r0 \<noteq> []"
          by (simp_all add: joined_Some)
        from old \<open>conn_of s sid = Some c\<close> live Disconnect Some p j show ?thesis
          by (auto simp: step_disconnect disconnect_rooms conn_of_def room_members_remove
                count_delete_user)
      qed
    qed
  qed
qed

lemma consistent_init: "consistent init"
  by (simp add: consistent_def init_def inv_rooms_def inv_nick_def inv_sio_def inv_count_def
        conn_of_def room_members_def count_sid_def)

lemma consistent_step: "consistent s \<Longrightarrow> consistent (fst (step a s))"
  by (simp add: consistent_def inv_rooms_step inv_nick_step inv_sio_step inv_count_step)

lemma consistent_exec: "consistent s \<Longrightarrow> consistent (exec acts s)"
  by (induction acts arbitrary: s) (simp_all add: consistent_step)

lemma consistent_reachable: "consistent (exec acts init)"
  by (rule consistent_exec [OF consistent_init])

subsection \<open>Joining a room\<close>







subsection \<open>Sending before joining\<close>

lemma joined_unjoined: "currentRoom c = None \<Longrightarrow> joined c = None"
  by (simp add: joined_def)

lemma step_send_message:
  "conn_of s sid = Some c \<Longrightarrow>
   step (SendMessage sid content now_id rnd now_ts) s =
     (s, send_message sid content now_id rnd now_ts c (shared s))"
  by (simp add: step.simps)

lemma step_send_voice:
  "conn_of s sid = Some c \<Longrightarrow>
   step (SendVoice sid messageId url duration now) s =
     (s, send_voice sid messageId url duration now c (shared s))"
  by (simp add: step.simps)

text \<open>
  Claim C6. For every connection that has not joined (its current room and nickname
  are both \<open>null\<close>), a \<open>send-message\<close> and a \<open>send-voice\<close> emit no event at
  all, so neither a broadcast nor a reply to the sender, and change no state; each
  writes one warning to the console.
\<close>

theorem C6_unjoined_send_is_dropped:
  assumes "conn_of s sid = Some c" and "currentRoom c = None" and "currentNickname c = None"
  shows "step (SendMessage sid content now_id rnd now_ts) s =
           (s, [ConsoleWarn (''[Socket] Message from unjoined user: '' @ sid)]) \<and>
         step (SendVoice sid messageId url duration now) s =
           (s, [ConsoleWarn (''[Socket] Voice message from unjoined user: '' @ sid)]) \<and>
         emissions (snd (step (SendMessage sid content now_id rnd now_ts) s)) = [] \<and>
         emissions (snd (step (SendVoice sid messageId url duration now) s)) = []"
  using assms
  by (simp add: step_send_message step_send_voice send_message_def send_voice_def
        joined_unjoined)

text \<open>An instance of C6: a socket that has connected and not joined any room.\<close>

theorem C6_unjoined_send_is_dropped_witness:
  "conn_of just_connected ''s1'' = Some \<lparr>currentRoom = None, currentNickname = None\<rparr> \<and>
   step (SendMessage ''s1'' ''hi'' 5 ''k3j9x0q1z'' 6) just_connected =
     (just_connected, [ConsoleWarn ''[Socket] Message from unjoined user: s1'']) \<and>
   step (SendVoice ''s1'' ''voice-1'' ''/voice/voice-1'' (Some 4) 7) just_connected =
     (just_connected, [ConsoleWarn ''[Socket] Voice message from unjoined user: s1''])"
proof -
  have conn: "conn_of just_connected ''s1'' =
      Some \<lparr>currentRoom = None, currentNickname = None\<rparr>"
    by code_simp
  from C6_unjoined_send_is_dropped [OF conn, of "''hi''" 5 "''k3j9x0q1z''" 6
      "''voice-1''" "''/voice/voice-1''" "Some 4" 7]
  show ?thesis using conn by simp
qed

subsection \<open>Rooms are never empty\<close>

lemma rooms_nonempty_reachable:
  assumes "(r, room) \<in> set (rooms (shared (exec acts init)))"
  shows "room \<noteq> []"
proof -
  have inv: "inv_rooms (rooms (shared (exec acts init)))"
    using consistent_reachable [of acts] by (simp add: consistent_def)
  then have "map_of (rooms (shared (exec acts init))) r = Some room"
    using assms by (simp add: inv_rooms_def)
  with inv show ?thesis by (simp add: inv_rooms_def)
qed

lemma remove_last_member:
  assumes "map_of rs r = Some room" and "delete_user sid room = []"
  shows "map_of (fst (removeUserFromRoom r sid rs)) r = None"
  using assms by (simp add: map_of_remove)

lemma join_absent_room:
  assumes "map_of (rooms srv) r = None"
  shows "map_of (rooms (fst (snd (join_room sid r i n now c srv)))) r =
           Some [\<lparr>socketId = sid, nickname = generateNickname i n\<rparr>]"
proof -
  have "map_of (rooms (fst (leave_previous sid c srv))) r = None"
    using assms by (simp add: rooms_leave_previous map_of_remove split: option.split)
  then have "room_members r (rooms (fst (leave_previous sid c srv))) = []"
    by (simp add: room_members_def)
  then show ?thesis by (simp add: join_room_rooms map_of_add)
qed

text \<open>
  Claim C7. In every state the server can reach, every room present in the registry
  has at least one member. Removing the last member of a room deletes the room's entry
  from the registry, and a join to the same room id after that creates the room anew,
  with the joining connection as its only member.
\<close>

theorem C7_no_empty_room:
  "(\<forall>r room. (r, room) \<in> set (rooms (shared (exec acts init))) \<longrightarrow> room \<noteq> []) \<and>
   (map_of rs r = Some room \<and> delete_user sid room = [] \<longrightarrow>
      map_of (fst (removeUserFromRoom r sid rs)) r = None \<and>
      map_of (rooms (fst (snd (join_room sid' r i n now c
                (srv\<lparr>rooms := fst (removeUserFromRoom r sid rs)\<rparr>))))) r =
        Some [\<lparr>socketId = sid', nickname = generateNickname i n\<rparr>])"
  by (auto simp: remove_last_member join_absent_room dest: rooms_nonempty_reachable)

text \<open>
  An instance of C7: the room of the reached state \<open>two_in_room\<close> has its two
  members; and when \<open>s1\<close>, alone in room \<open>A\<close>, is removed, the room is gone, and
  \<open>s2\<close> joining \<open>A\<close> afterwards is alone in it.
\<close>

theorem C7_no_empty_room_witness:
  "(''A'', [\<lparr>socketId = ''s1'', nickname = ''User1000''\<rparr>,
            \<lparr>socketId = ''s2'', nickname = ''Guest1001''\<rparr>])
     \<in> set (rooms (shared two_in_room)) \<and>
   [\<lparr>socketId = ''s1'', nickname = ''User1000''\<rparr>,
    \<lparr>socketId = ''s2'', nickname = ''Guest1001''\<rparr>] \<noteq> [] \<and>
   map_of (rooms (shared alone_in_room)) ''A'' =
     Some [\<lparr>socketId = ''s1'', nickname = ''User1000''\<rparr>] \<and>
   delete_user ''s1'' [\<lparr>socketId = ''s1'', nickname = ''User1000''\<rparr>] = [] \<and>
   map_of (fst (removeUserFromRoom ''A'' ''s1'' (rooms (shared alone_in_room)))) ''A'' = None \<and>
   map_of (rooms (fst (snd (join_room ''s2'' ''A'' 1 1 2
             \<lparr>currentRoom = None, currentNickname = None\<rparr>
             ((shared alone_in_room)
                \<lparr>rooms := fst (removeUserFromRoom ''A'' ''s1'' (rooms (shared alone_in_room)))\<rparr>)))))
     ''A'' =
     Some [\<lparr>socketId = ''s2'', nickname = generateNickname 1 1\<rparr>]"
proof -
  let ?room = "[\<lparr>socketId = ''s1'', nickname = ''User1000''\<rparr>,
                \<lparr>socketId = ''s2'', nickname = ''Guest1001''\<rparr>]"
  have present: "(''A'', ?room) \<in> set (rooms (shared two_in_room))"
    by code_simp
  have alone: "map_of (rooms (shared alone_in_room)) ''A'' =
      Some [\<lparr>socketId = ''s1'', nickname = ''User1000''\<rparr>]"
    by code_simp
  have last: "delete_user ''s1'' [\<lparr>socketId = ''s1'', nickname = ''User1000''\<rparr>] = []"
    by simp
  note inst = C7_no_empty_room [of
      "[Connect ''s1'', Connect ''s2'', JoinRoom ''s1'' ''A'' 0 0 1, JoinRoom ''s2'' ''A'' 1 1 2]"
      "rooms (shared alone_in_room)" "''A''"
      "[\<lparr>socketId = ''s1'', nickname = ''User1000''\<rparr>]" "''s1''" "''s2''" 1 1 2
      "\<lparr>currentRoom = None, currentNickname = None\<rparr>" "shared alone_in_room"]
  from inst present have "?room \<noteq> []"
    unfolding two_in_room_def by blast
  moreover from inst alone last
  have "map_of (fst (removeUserFromRoom ''A'' ''s1'' (rooms (shared alone_in_room)))) ''A'' = None \<and>
    map_of (rooms (fst (snd (join_room ''s2'' ''A'' 1 1 2
             \<lparr>currentRoom = None, currentNickname = None\<rparr>
             ((shared alone_in_room)
                \<lparr>rooms := fst (removeUserFromRoom ''A'' ''s1'' (rooms (shared alone_in_room)))\<rparr>)))))
      ''A'' =
      Some [\<lparr>socketId = ''s2'', nickname = generateNickname 1 1\<rparr>]"
    by blast
  ultimately show ?thesis using present alone last by blast
qed

subsection \<open>Switching rooms\<close>

text \<open>
  Claim C1 at a concrete input. The sockets \<open>s1\<close> and \<open>s2\<close> are in room \<open>A\<close>
  and \<open>s1\<close> joins room \<open>B\<close>. Afterwards \<open>s1\<close> is a member of room \<open>B\<close> and
  of no other room, and \<open>s2\<close> is alone in room \<open>A\<close>; but the call emits the three
  events of a join only, none of them \<open>user-left\<close>, and \<open>s2\<close> receives nothing,
  where a disconnect of \<open>s1\<close> in the same state sends \<open>s2\<close> a \<open>user-left\<close>.
  Besides, a connection whose previous room is named by the empty string is not taken
  out of it on the next join: \<open>if (currentRoom)\<close> is false for that name.
\<close>

theorem C1_room_switch_sends_no_user_left:
  "rooms (shared (fst (step (JoinRoom ''s1'' ''B'' 2 7 3) two_in_room))) =
     [(''A'', [\<lparr>socketId = ''s2'', nickname = ''Guest1001''\<rparr>]),
      (''B'', [\<lparr>socketId = ''s1'', nickname = ''Visitor1007''\<rparr>])] \<and>
   emissions (snd (step (JoinRoom ''s1'' ''B'' 2 7 3) two_in_room)) =
     [Emit (ToSocket ''s1'') (NicknameAssigned ''Visitor1007'') {''s1''}
        [(''A'', [\<lparr>socketId = ''s2'', nickname = ''Guest1001''\<rparr>]),
         (''B'', [\<lparr>socketId = ''s1'', nickname = ''Visitor1007''\<rparr>])],
      Emit (ToRoomExcept ''B'' ''s1'') (UserJoined ''Visitor1007'' 3) {}
        [(''A'', [\<lparr>socketId = ''s2'', nickname = ''Guest1001''\<rparr>]),
         (''B'', [\<lparr>socketId = ''s1'', nickname = ''Visitor1007''\<rparr>])],
      Emit (ToSocket ''s1'') (ParticipantsList [''Visitor1007'']) {''s1''}
        [(''A'', [\<lparr>socketId = ''s2'', nickname = ''Guest1001''\<rparr>]),
         (''B'', [\<lparr>socketId = ''s1'', nickname = ''Visitor1007''\<rparr>])]] \<and>
   received_by ''s2'' (snd (step (JoinRoom ''s1'' ''B'' 2 7 3) two_in_room)) = [] \<and>
   received_by ''s2'' (snd (step (Disconnect ''s1'' 3) two_in_room)) = [UserLeft ''User1000'' 3] \<and>
   rooms (shared (exec [Connect ''s1'', JoinRoom ''s1'' [] 0 0 1, JoinRoom ''s1'' ''B'' 2 7 3] init)) =
     [([], [\<lparr>socketId = ''s1'', nickname = ''User1000''\<rparr>]),
      (''B'', [\<lparr>socketId = ''s1'', nickname = ''Visitor1007''\<rparr>])]"
  by code_simp

subsection \<open>The invariants in reachable states\<close>

lemma count_sid_zero: "count_sid sid room = 0 \<longleftrightarrow> sid \<notin> socketId ` set room"
  by (auto simp: count_sid_def filter_empty_conv)


lemma reachable_in_sio:
  assumes "conn_of (exec acts init) sid = Some c" and "currentRoom c = Some r"
  shows "sid \<in> sio (shared (exec acts init)) r"
  using consistent_reachable [of acts] assms
  by (auto simp: consistent_def inv_sio_def)

lemma reachable_count:
  assumes "r \<noteq> []"
  shows "count_sid sid (room_members r (rooms (shared (exec acts init)))) =
           (if \<exists>c. conn_of (exec acts init) sid = Some c \<and> currentRoom c = Some r
            then 1 else 0)"
  using consistent_reachable [of acts] assms
  by (simp add: consistent_def inv_count_def)

lemma reachable_members_in_sio:
  assumes "r \<noteq> []" and "u \<in> set (room_members r (rooms (shared (exec acts init))))"
  shows "socketId u \<in> sio (shared (exec acts init)) r"
proof -
  from assms(2) have "count_sid (socketId u) (room_members r (rooms (shared (exec acts init)))) \<noteq> 0"
    by (auto simp: count_sid_zero)
  with reachable_count [OF assms(1), of "socketId u" acts]
  obtain c where "conn_of (exec acts init) (socketId u) = Some c" "currentRoom c = Some r"
    by (auto split: if_splits)
  then show ?thesis by (rule reachable_in_sio)
qed


subsection \<open>Sending a text message\<close>

text \<open>
  Sending a text from a room with a non-empty name. For every connection of a reachable
  state whose current room and nickname are non-empty strings, a \<open>send-message\<close>
  emits exactly one event, a \<open>new-message\<close> to the whole current room: it is
  delivered to every socket of the room, the sender among them, and to every member the
  registry lists for the room. The message is a text message with the given content,
  the sender's current nickname, the timestamp read from the clock, and an id made at
  this call from the clock and a random suffix. No state changes.
\<close>

lemma send_text_reaches_room:
  assumes "s = exec acts init" and "conn_of s sid = Some c" and "joined c = Some (r, nick)"
  shows "step (SendMessage sid content now_id rnd now_ts) s =
           (s, [ConsoleLog (''[Socket] Message in '' @ r @ '' from '' @ nick @ '': '' @
                            take 50 content),
                Emit (ToRoom r)
                  (NewMessage (TextMessage (''msg-'' @ show_int now_id @ ''-'' @ rnd)
                                 content nick now_ts))
                  (sio (shared s) r) (rooms (shared s))]) \<and>
         sid \<in> sio (shared s) r \<and>
         socketId ` set (room_members r (rooms (shared s))) \<subseteq> sio (shared s) r"
proof -
  from assms(3) have room: "currentRoom c = Some r" "r \<noteq> []"
    by (simp_all add: joined_Some)
  have "step (SendMessage sid content now_id rnd now_ts) s =
           (s, [ConsoleLog (''[Socket] Message in '' @ r @ '' from '' @ nick @ '': '' @
                            take 50 content),
                Emit (ToRoom r)
                  (NewMessage (TextMessage (''msg-'' @ show_int now_id @ ''-'' @ rnd)
                                 content nick now_ts))
                  (sio (shared s) r) (rooms (shared s))])"
    using assms(2,3) by (simp add: step_send_message send_message_def emit_def)
  moreover have "sid \<in> sio (shared s) r"
    using assms(1,2) room(1) by (simp add: reachable_in_sio)
  moreover have "socketId ` set (room_members r (rooms (shared s))) \<subseteq> sio (shared s) r"
    using assms(1) room(2) by (auto simp: reachable_members_in_sio)
  ultimately show ?thesis by simp
qed

text \<open>
  For instance \<open>s1\<close>, in room \<open>A\<close> with \<open>s2\<close>, sends \<open>hi\<close>; both receive
  the message.
\<close>

lemma send_text_reaches_room_example:
  "conn_of two_in_room ''s1'' =
     Some \<lparr>currentRoom = Some ''A'', currentNickname = Some ''User1000''\<rparr> \<and>
   joined \<lparr>currentRoom = Some ''A'', currentNickname = Some ''User1000''\<rparr> =
     Some (''A'', ''User1000'') \<and>
   step (SendMessage ''s1'' ''hi'' 5 ''k3j9x0q1z'' 6) two_in_room =
     (two_in_room,
      [ConsoleLog ''[Socket] Message in A from User1000: hi'',
       Emit (ToRoom ''A'')
         (NewMessage (TextMessage ''msg-5-k3j9x0q1z'' ''hi'' ''User1000'' 6))
         {''s1'', ''s2''}
         [(''A'', [\<lparr>socketId = ''s1'', nickname = ''User1000''\<rparr>,
                   \<lparr>socketId = ''s2'', nickname = ''Guest1001''\<rparr>])]]) \<and>
   ''s1'' \<in> sio (shared two_in_room) ''A''"
proof -
  let ?c = "\<lparr>currentRoom = Some ''A'', currentNickname = Some ''User1000''\<rparr>"
  have conn: "conn_of two_in_room ''s1'' = Some ?c"
    by code_simp
  have joined: "joined ?c = Some (''A'', ''User1000'')"
    by code_simp
  have room: "sio (shared two_in_room) ''A'' = {''s1'', ''s2''}"
    by code_simp
  have reg: "rooms (shared two_in_room) =
      [(''A'', [\<lparr>socketId = ''s1'', nickname = ''User1000''\<rparr>,
                \<lparr>socketId = ''s2'', nickname = ''Guest1001''\<rparr>])]"
    by code_simp
  have id: "''msg-'' @ show_int 5 @ ''-'' @ ''k3j9x0q1z'' = ''msg-5-k3j9x0q1z''"
    by code_simp
  from send_text_reaches_room [OF two_in_room_def conn joined, of "''hi''" 5 "''k3j9x0q1z''" 6]
  show ?thesis
    unfolding room reg id using conn joined by simp
qed

text \<open>
  Claim C4 at a concrete input. The socket \<open>s1\<close> has joined the room named by the
  empty string: the registry lists it as the member of that room, Socket.IO has it in
  that room, and its current room and nickname are set. Its \<open>send-message\<close> is
  dropped all the same, with the warning for a user that has not joined and no event:
  \<open>!currentRoom\<close> is true of the empty string.
\<close>

theorem C4_send_text_dropped_in_unnamed_room:
  "conn_of in_unnamed_room ''s1'' =
     Some \<lparr>currentRoom = Some [], currentNickname = Some ''User1000''\<rparr> \<and>
   rooms (shared in_unnamed_room) = [([], [\<lparr>socketId = ''s1'', nickname = ''User1000''\<rparr>])] \<and>
   ''s1'' \<in> sio (shared in_unnamed_room) [] \<and>
   snd (step (SendMessage ''s1'' ''hi'' 5 ''k3j9x0q1z'' 6) in_unnamed_room) =
     [ConsoleWarn ''[Socket] Message from unjoined user: s1'']"
  by code_simp

subsection \<open>Disconnecting\<close>







subsection \<open>Joining the current room again\<close>










end
